theory Spec2Isabelle
  imports Complex_Main "HOL-Library.Multiset" "HOL-Library.Char_ord" "HOL-Library.List_Lexorder"
    "HOL-Library.Log_Nat"
begin

section \<open>Data model\<close>

text \<open>
  The development embeds \<^verbatim>\<open>collect.py\<close> and \<^verbatim>\<open>visualize.py\<close>.
  Python exceptions are values of \<open>error\<close>; a function that can raise returns
  \<open>error + 'a\<close> with \<open>Inl\<close> for the exception. Python integers are \<open>int\<close>.
  A Python \<^verbatim>\<open>str\<close> is a \<open>string\<close>, one \<open>char\<close> per code point (code points
  below 256). Text written to standard output is not part of the model.
\<close>

datatype error =
  TypeError | KeyError | ValueError | StatisticsError | OverflowError | StopIteration | CsvError

text \<open>
  \<^verbatim>\<open>datetime.datetime\<close> stores its calendar fields; the commits of this program carry
  no microseconds and no time zone.
\<close>

record datetime =
  year :: nat
  month :: nat
  day :: nat
  hour :: nat
  minute :: nat
  second :: nat

text \<open>\<^verbatim>\<open>class Commit\<close> of \<^verbatim>\<open>collect.py\<close>; \<^verbatim>\<open>__init__\<close> drops its \<^verbatim>\<open>commits\<close> argument.\<close>

record Commit =
  repository :: string
  sha :: string
  timestamp :: datetime
  author :: string
  added :: int
  removed :: int

text \<open>
  \<^verbatim>\<open>class Day\<close> of \<^verbatim>\<open>visualize.py\<close>. A \<^verbatim>\<open>datetime.date\<close> is represented by its
  proleptic Gregorian ordinal (\<^verbatim>\<open>date.toordinal()\<close>): day 1 is 0001-01-01, and the
  last date, 9999-12-31, is day 3652059.
\<close>

type_synonym date = int

record Day =
  date :: date
  commits :: "Commit list"
  score :: int

text \<open>\<^verbatim>\<open>class Group\<close> of \<^verbatim>\<open>visualize.py\<close> with its three properties.\<close>

record Group =
  name :: string
  commits :: "Commit list"

definition group_added :: "Group \<Rightarrow> int" where
  "group_added g = sum_list (map added (Group.commits g))"

definition group_removed :: "Group \<Rightarrow> int" where
  "group_removed g = sum_list (map removed (Group.commits g))"

definition change :: "Group \<Rightarrow> int" where
  "change g = group_added g + group_removed g"

section \<open>Score normalizer\<close>

text \<open>
  \<^verbatim>\<open>Group.get_score\<close>. The bounds are what \<^verbatim>\<open>get_stddev_range\<close> hands over: integers,
  or \<^verbatim>\<open>None\<close>, and comparing an integer with \<^verbatim>\<open>None\<close> raises \<^verbatim>\<open>TypeError\<close>.
  The quotient of two integers is an exact rational here; the double that Python holds is
  that quotient rounded to the nearest double (\<open>to_double\<close> below), and the bar
  renderer, which multiplies it, takes that rounding.
\<close>

definition get_score :: "Group \<Rightarrow> int option \<Rightarrow> int option \<Rightarrow> error + rat" where
  "get_score g minv maxv =
     (case minv of None \<Rightarrow> Inl TypeError
      | Some mn \<Rightarrow>
          if change g < mn then Inr 0
          else (case maxv of None \<Rightarrow> Inl TypeError
                | Some mx \<Rightarrow>
                    if change g > mx then Inr 1
                    else if mx - mn = 0 then Inr 0
                    else Inr (of_int (change g - mn) / of_int (mx - mn))))"

section \<open>Helpers\<close>

text \<open>
  The module \<^verbatim>\<open>functional\<close>, from which \<^verbatim>\<open>visualize.py\<close> imports three helpers, is
  not among the sources. The helpers are taken by their names and by the way
  \<^verbatim>\<open>visualize.py\<close> and the spec use their results.
\<close>

text \<open>
  Modelled from the spec: \<^verbatim>\<open>list_map\<close> of the missing module \<^verbatim>\<open>functional\<close>. The range
  estimator takes "the list of each group's change magnitude" from it and tests that list
  for emptiness and length, so it returns the list of the images, in order.
\<close>

definition list_map :: "'a list \<Rightarrow> ('a \<Rightarrow> 'b) \<Rightarrow> 'b list" where
  "list_map xs f = map f xs"

text \<open>
  Modelled from the spec: \<^verbatim>\<open>list_filter\<close> of the missing module \<^verbatim>\<open>functional\<close>. The
  aggregator keeps "the subsequence of records whose author is in the set" and takes its
  length: the list of the elements that satisfy the predicate, in order.
\<close>

definition list_filter :: "'a list \<Rightarrow> ('a \<Rightarrow> bool) \<Rightarrow> 'a list" where
  "list_filter xs p = filter p xs"

text \<open>
  Modelled from the spec: \<^verbatim>\<open>list_reduce\<close> of the missing module \<^verbatim>\<open>functional\<close>. Grouping
  is "a single linear pass" that feeds the commits one after the other, with the mapping
  built so far, to the update function, starting from the given initial mapping: the left
  fold. An exception raised by the update function ends the fold.
\<close>

fun list_reduce :: "'b list \<Rightarrow> ('a \<Rightarrow> 'b \<Rightarrow> error + 'a) \<Rightarrow> 'a \<Rightarrow> error + 'a" where
  "list_reduce [] f acc = Inr acc"
| "list_reduce (x # xs) f acc =
     (case f acc x of Inl e \<Rightarrow> Inl e | Inr acc' \<Rightarrow> list_reduce xs f acc')"

text \<open>
  A Python \<^verbatim>\<open>dict\<close> (and \<^verbatim>\<open>OrderedDict\<close>) iterates in insertion order: an association
  list with distinct keys, a new key going to the end, an assignment to a present key
  keeping its place.
\<close>

type_synonym ('k, 'v) dict = "('k \<times> 'v) list"

definition dict_keys :: "('k, 'v) dict \<Rightarrow> 'k list" where
  "dict_keys d = map fst d"

definition dict_values :: "('k, 'v) dict \<Rightarrow> 'v list" where
  "dict_values d = map snd d"

definition dict_contains :: "'k \<Rightarrow> ('k, 'v) dict \<Rightarrow> bool" where
  "dict_contains k d = (k \<in> set (dict_keys d))"

fun dict_set :: "('k, 'v) dict \<Rightarrow> 'k \<Rightarrow> 'v \<Rightarrow> ('k, 'v) dict" where
  "dict_set [] k v = [(k, v)]"
| "dict_set ((k', v') # d) k v =
     (if k' = k then (k', v) # d else (k', v') # dict_set d k v)"

definition dict_get :: "('k, 'v) dict \<Rightarrow> 'k \<Rightarrow> error + 'v" where
  "dict_get d k = (case map_of d k of None \<Rightarrow> Inl KeyError | Some v \<Rightarrow> Inr v)"

text \<open>\<^verbatim>\<open>str(n)\<close> for an integer, and \<^verbatim>\<open>str.strip\<close>, \<^verbatim>\<open>str.lower\<close> on code points below 256.\<close>

definition digit_char :: "nat \<Rightarrow> char" where
  "digit_char n = ''0123456789'' ! n"

function str_nat :: "nat \<Rightarrow> string" where
  "str_nat n = (if n < 10 then [digit_char n] else str_nat (n div 10) @ [digit_char (n mod 10)])"
  by pat_completeness auto
termination
  by (relation "measure (\<lambda>n. n)") auto

declare str_nat.simps [simp del]

definition str_int :: "int \<Rightarrow> string" where
  "str_int i = (if i < 0 then CHR ''-'' # str_nat (nat (- i)) else str_nat (nat i))"

definition isspace :: "char \<Rightarrow> bool" where
  "isspace c = ((of_char c :: nat) \<in> {9, 10, 11, 12, 13, 28, 29, 30, 31, 32, 133, 160})"

definition str_strip :: "string \<Rightarrow> string" where
  "str_strip s = rev (dropWhile isspace (rev (dropWhile isspace s)))"

definition lower_char :: "char \<Rightarrow> char" where
  "lower_char c =
     (let n = (of_char c :: nat)
      in if (65 \<le> n \<and> n \<le> 90) \<or> (192 \<le> n \<and> n \<le> 222 \<and> n \<noteq> 215)
         then char_of (n + 32) else c)"

definition str_lower :: "string \<Rightarrow> string" where
  "str_lower s = map lower_char s"

section \<open>Calendar arithmetic of \<^verbatim>\<open>datetime\<close>\<close>

text \<open>
  The proleptic Gregorian ordinal of the standard library (\<^verbatim>\<open>_ymd2ord\<close>, with its
  helpers \<^verbatim>\<open>_is_leap\<close>, \<^verbatim>\<open>_days_in_month\<close>, \<^verbatim>\<open>_days_before_month\<close> and its table,
  \<^verbatim>\<open>_days_before_year\<close>), and the fields \<^verbatim>\<open>strftime\<close> reads from the time tuple:
  the weekday (Monday is 0) and the day of the year. The month of a \<^verbatim>\<open>datetime\<close> is
  always between 1 and 12.
\<close>

definition is_leap :: "nat \<Rightarrow> bool" where
  "is_leap y = (y mod 4 = 0 \<and> (y mod 100 \<noteq> 0 \<or> y mod 400 = 0))"

definition days_in_month :: "nat \<Rightarrow> nat \<Rightarrow> nat" where
  "days_in_month y m =
     (if m = 2 then (if is_leap y then 29 else 28)
      else if m = 4 \<or> m = 6 \<or> m = 9 \<or> m = 11 then 30 else 31)"

definition days_before_month :: "nat \<Rightarrow> nat \<Rightarrow> nat" where
  "days_before_month y m =
     [0, 31, 59, 90, 120, 151, 181, 212, 243, 273, 304, 334] ! (m - 1)
       + (if m > 2 \<and> is_leap y then 1 else 0)"

definition days_before_year :: "nat \<Rightarrow> int" where
  "days_before_year y =
     (let y1 = int y - 1 in y1 * 365 + y1 div 4 - y1 div 100 + y1 div 400)"

definition ymd2ord :: "nat \<Rightarrow> nat \<Rightarrow> nat \<Rightarrow> int" where
  "ymd2ord y m d = days_before_year y + int (days_before_month y m) + int d"

definition date_max :: date where
  "date_max = 3652059"

definition valid_date :: "date \<Rightarrow> bool" where
  "valid_date d = (1 \<le> d \<and> d \<le> date_max)"

definition valid_datetime :: "datetime \<Rightarrow> bool" where
  "valid_datetime t =
     (1 \<le> year t \<and> year t \<le> 9999 \<and> 1 \<le> month t \<and> month t \<le> 12
      \<and> 1 \<le> day t \<and> day t \<le> days_in_month (year t) (month t)
      \<and> hour t < 24 \<and> minute t < 60 \<and> second t < 60)"

definition datetime_date :: "datetime \<Rightarrow> date" where
  "datetime_date t = ymd2ord (year t) (month t) (day t)"

definition weekday :: "datetime \<Rightarrow> nat" where
  "weekday t = nat ((ymd2ord (year t) (month t) (day t) + 6) mod 7)"

definition yday :: "datetime \<Rightarrow> nat" where
  "yday t = days_before_month (year t) (month t) + day t"

definition zfill :: "nat \<Rightarrow> string \<Rightarrow> string" where
  "zfill w s = replicate (w - length s) CHR ''0'' @ s"

text \<open>
  \<^verbatim>\<open>timestamp.strftime("%Y-%W")\<close>: the year, and the week of the year counted from the
  first Monday (the days before it are week 00). The year is written with four digits;
  below the year 1000 the C library decides the padding of \<^verbatim>\<open>%Y\<close>, and the model pads.
\<close>

definition strftime_Y_W :: "datetime \<Rightarrow> string" where
  "strftime_Y_W t =
     zfill 4 (str_nat (year t)) @ ''-'' @ zfill 2 (str_nat ((yday t - 1 + 7 - weekday t) div 7))"

section \<open>Bucket aggregator\<close>

text \<open>\<^verbatim>\<open>filter_by_authors\<close>: the returned list; the count it prints is left out.\<close>

definition filter_by_authors :: "Commit list \<Rightarrow> string list \<Rightarrow> Commit list" where
  "filter_by_authors cs authors =
     (let authors' = list_map authors (\<lambda>a. str_lower (str_strip a));
          filtered_commits =
            list_filter cs (\<lambda>x. str_lower (str_strip (author x)) \<in> set authors')
      in filtered_commits)"

text \<open>
  \<^verbatim>\<open>group_by_week\<close> and its inner \<^verbatim>\<open>update\<close>. The append
  \<^verbatim>\<open>groups[week].commits.append(commit)\<close> mutates the group stored under the key; here the
  entry is replaced by the group with the longer list.
\<close>

definition group_by_week_update ::
    "(string, Group) dict \<Rightarrow> Commit \<Rightarrow> error + (string, Group) dict" where
  "group_by_week_update groups commit =
     (let week = strftime_Y_W (timestamp commit);
          groups1 = (if \<not> dict_contains week groups
                     then dict_set groups week \<lparr>name = week, commits = []\<rparr>
                     else groups)
      in case dict_get groups1 week of
           Inl e \<Rightarrow> Inl e
         | Inr g \<Rightarrow> Inr (dict_set groups1 week (g\<lparr>commits := Group.commits g @ [commit]\<rparr>)))"

definition group_by_week :: "Commit list \<Rightarrow> error + (string, Group) dict" where
  "group_by_week cs = list_reduce cs group_by_week_update []"

definition all_commits :: "(string, Group) dict \<Rightarrow> Commit list" where
  "all_commits groups = concat (map Group.commits (dict_values groups))"

section \<open>Range estimator\<close>

text \<open>
  \<^verbatim>\<open>round\<close> with one argument rounds to the nearest integer, a tie going to the even
  neighbour. \<^verbatim>\<open>statistics.mean\<close> and \<^verbatim>\<open>statistics.stdev\<close> sum exact fractions:
  the mean is the quotient of the sum by the count, the sample standard deviation the
  square root of the sum of squared deviations over \<open>n - 1\<close>; they raise
  \<^verbatim>\<open>StatisticsError\<close> on fewer than one and fewer than two values. The values are real
  numbers here, where Python rounds the quotient and the root to a double.
\<close>

definition py_round :: "real \<Rightarrow> int" where
  "py_round x =
     (let f = \<lfloor>x\<rfloor>; r = x - of_int f
      in if r < 1 / 2 then f else if r > 1 / 2 then f + 1 else if even f then f else f + 1)"

definition mean :: "int list \<Rightarrow> error + real" where
  "mean xs =
     (if length xs < 1 then Inl StatisticsError
      else Inr (of_int (sum_list xs) / of_nat (length xs)))"

definition stdev :: "int list \<Rightarrow> error + real" where
  "stdev xs =
     (if length xs < 2 then Inl StatisticsError
      else (let xbar = of_int (sum_list xs) / of_nat (length xs);
                ss = sum_list (map (\<lambda>x. (of_int x - xbar)\<^sup>2) xs)
            in Inr (sqrt (ss / of_nat (length xs - 1)))))"

text \<open>
  \<^verbatim>\<open>get_stddev_range\<close>. The triple \<^verbatim>\<open>(None, None, None)\<close> is the triple of three
  \<open>None\<close>. \<^verbatim>\<open>mean\<close> and \<^verbatim>\<open>stddev\<close> are integers after rounding, so the
  \<^verbatim>\<open>round\<close> around their difference and sum changes nothing.
\<close>

definition get_stddev_range ::
    "(string, Group) dict \<Rightarrow> error + (int option \<times> int option \<times> int option)" where
  "get_stddev_range groups =
     (let changes = list_map (dict_values groups) change
      in if changes = [] then Inr (None, None, None)
         else (case mean changes of
                 Inl e \<Rightarrow> Inl e
               | Inr m \<Rightarrow>
                   (case (if length changes > 1
                          then (case stdev changes of Inl e \<Rightarrow> Inl e | Inr s \<Rightarrow> Inr (py_round s))
                          else Inr 0) of
                      Inl e \<Rightarrow> Inl e
                    | Inr stddev \<Rightarrow>
                        (let mean' = py_round m;
                             lower = max (mean' - stddev) 0;
                             upper = mean' + stddev
                         in Inr (Some mean', Some lower, Some upper)))))"

section \<open>Bar renderer\<close>

text \<open>
  Python's \<^verbatim>\<open>float\<close> is the IEEE double. \<open>to_double x\<close> is the double nearest to the
  rational \<open>x\<close>, a tie going to the even mantissa: doubles are spaced
  \<open>2 ^ (e - 52)\<close> apart in the binade \<open>2 ^ e \<le> \<bar>x\<bar> < 2 ^ (e + 1)\<close>, and
  \<open>2 ^ (- 1074)\<close> apart below \<open>2 ^ (- 1022)\<close>. The true division of two integers
  and the conversion of an integer to \<^verbatim>\<open>float\<close> return the double nearest to the exact
  value, and the product of two doubles is the double nearest to their exact product
  (\<open>float_mul\<close>). No value rounded in this program is beyond the largest double.
\<close>

definition round_half_even :: "rat \<Rightarrow> int" where
  "round_half_even x =
     (let f = \<lfloor>x\<rfloor>; r = x - of_int f
      in if r < 1 / 2 then f else if r > 1 / 2 then f + 1 else if even f then f else f + 1)"

definition pow2 :: "int \<Rightarrow> rat" where
  "pow2 k = (if 0 \<le> k then 2 ^ nat k else 1 / 2 ^ nat (- k))"

definition floor_log2 :: "rat \<Rightarrow> int" where
  "floor_log2 x =
     (case quotient_of x of
        (p, q) \<Rightarrow> (let e = bitlen p - bitlen q in if pow2 e \<le> x then e else e - 1))"

definition to_double :: "rat \<Rightarrow> rat" where
  "to_double x =
     (if x = 0 then 0
      else (let e = floor_log2 \<bar>x\<bar>; u = pow2 (max e (- 1022) - 52)
            in of_int (round_half_even (x / u)) * u))"

definition float_mul :: "rat \<Rightarrow> rat \<Rightarrow> rat" where
  "float_mul x y = to_double (x * y)"

text \<open>
  \<^verbatim>\<open>build_bars\<close>. A string times an integer repeats the string, no times at all for a
  negative integer; \<^verbatim>\<open>int\<close> of a number drops its fraction. The block character and
  the width are the function's own parameters (the defaults are the upper half block and 50).
  The loop body is \<open>build_bar\<close>, the loop over the sorted keys \<open>build_bars_loop\<close>.
  The number of blocks is \<^verbatim>\<open>int(group.get_score(lower, upper) * width)\<close>: the double
  score times the width as a double, truncated. (Where \<^verbatim>\<open>get_score\<close> returns the
  integer 0 or 1 the product is an integer product; it is the same number for every
  width that a double holds exactly, as 50 is.)
\<close>

definition str_repeat :: "string \<Rightarrow> int \<Rightarrow> string" where
  "str_repeat s n = concat (replicate (nat n) s)"

definition py_int :: "rat \<Rightarrow> int" where
  "py_int x = (if x < 0 then \<lceil>x\<rceil> else \<lfloor>x\<rfloor>)"

definition build_bar :: "Group \<Rightarrow> int option \<Rightarrow> int option \<Rightarrow> string \<Rightarrow> int \<Rightarrow> error + string" where
  "build_bar grp lower upper block width =
     (case get_score grp lower upper of
        Inl e \<Rightarrow> Inl e
      | Inr sc \<Rightarrow>
          Inr (name grp @ ''  '' @ str_int (change grp)
               @ str_repeat '' '' (5 - int (length (str_int (change grp))))
               @ str_repeat block (py_int (float_mul (to_double sc) (to_double (of_int width))))
               @ [CHR 0x0A]))"

fun build_bars_loop ::
    "(string, Group) dict \<Rightarrow> int option \<Rightarrow> int option \<Rightarrow> string \<Rightarrow> int
       \<Rightarrow> string list \<Rightarrow> string list \<Rightarrow> error + string list" where
  "build_bars_loop groups lower upper block width [] bars = Inr bars"
| "build_bars_loop groups lower upper block width (nm # names) bars =
     (case dict_get groups nm of
        Inl e \<Rightarrow> Inl e
      | Inr grp \<Rightarrow>
          (case build_bar grp lower upper block width of
             Inl e \<Rightarrow> Inl e
           | Inr bar \<Rightarrow> build_bars_loop groups lower upper block width names (bars @ [bar])))"

definition build_bars ::
    "(string, Group) dict \<Rightarrow> int option \<times> int option \<times> int option \<Rightarrow> string \<Rightarrow> int
       \<Rightarrow> error + string list" where
  "build_bars groups stddev_range block width =
     (case stddev_range of
        (_, lower, upper) \<Rightarrow>
          build_bars_loop groups lower upper block width (sort (dict_keys groups)) [])"

section \<open>Calendar filler\<close>

text \<open>
  \<^verbatim>\<open>date + timedelta(days=n)\<close> raises \<^verbatim>\<open>OverflowError\<close> when the result leaves the
  range of \<^verbatim>\<open>datetime.date\<close>.
\<close>

definition date_add_days :: "date \<Rightarrow> int \<Rightarrow> error + date" where
  "date_add_days d n =
     (let ord = d + n in if 0 < ord \<and> ord \<le> date_max then Inr ord else Inl OverflowError)"

text \<open>
  \<^verbatim>\<open>Day._fill_missing_dates\<close>: \<open>fill_loop\<close> is its \<^verbatim>\<open>while\<close> loop. The dictionary
  is updated in place in the source and handed on here.
\<close>

function fill_loop :: "(date, Day) dict \<Rightarrow> date \<Rightarrow> date \<Rightarrow> error + (date, Day) dict" where
  "fill_loop days current_date max_date =
     (if current_date \<le> max_date
      then (let days1 = (if \<not> dict_contains current_date days
                         then dict_set days current_date
                                \<lparr>Day.date = current_date, Day.commits = [], Day.score = 0\<rparr>
                         else days)
            in case date_add_days current_date 1 of
                 Inl e \<Rightarrow> Inl e
               | Inr next_date \<Rightarrow> fill_loop days1 next_date max_date)
      else Inr days)"
  by pat_completeness auto
termination
  by (relation "measure (\<lambda>(days, current_date, max_date). nat (max_date - current_date + 1))")
     (auto simp: date_add_days_def Let_def split: if_splits)

declare fill_loop.simps [simp del]

definition fill_missing_dates :: "(date, Day) dict \<Rightarrow> error + (date, Day) dict" where
  "fill_missing_dates days =
     (if days = [] then Inr days
      else (let min_date = Min (set (dict_keys days));
                max_date = Max (set (dict_keys days))
            in fill_loop days min_date max_date))"

text \<open>\<^verbatim>\<open>Day.from_commits\<close>: the loop over the commits, then the filler.\<close>

fun from_commits_loop :: "Commit list \<Rightarrow> (date, Day) dict \<Rightarrow> error + (date, Day) dict" where
  "from_commits_loop [] days = Inr days"
| "from_commits_loop (commit # cs) days =
     (let d = datetime_date (timestamp commit);
          days1 = (if \<not> dict_contains d days
                   then dict_set days d \<lparr>Day.date = d, Day.commits = [], Day.score = 0\<rparr>
                   else days)
      in case dict_get days1 d of
           Inl e \<Rightarrow> Inl e
         | Inr dy \<Rightarrow>
             from_commits_loop cs (dict_set days1 d (dy\<lparr>Day.commits := Day.commits dy @ [commit]\<rparr>)))"

definition from_commits :: "Commit list \<Rightarrow> error + (date, Day) dict" where
  "from_commits cs =
     (case from_commits_loop cs [] of
        Inl e \<Rightarrow> Inl e
      | Inr days \<Rightarrow> fill_missing_dates days)"

section \<open>Commit records as CSV\<close>

subsection \<open>Writing: \<^verbatim>\<open>Commit.to_csv_row\<close>, \<^verbatim>\<open>csv.writer\<close>, \<^verbatim>\<open>save_commits\<close>\<close>

text \<open>
  \<^verbatim>\<open>strftime('%Y-%m-%d %H:%M:%S')\<close>: every field zero-padded (for \<^verbatim>\<open>%Y\<close> below the year
  1000 see \<open>strftime_Y_W\<close>).
\<close>

definition strftime :: "datetime \<Rightarrow> string" where
  "strftime t =
     zfill 4 (str_nat (year t)) @ ''-'' @ zfill 2 (str_nat (month t)) @ ''-''
       @ zfill 2 (str_nat (day t)) @ '' '' @ zfill 2 (str_nat (hour t)) @ '':''
       @ zfill 2 (str_nat (minute t)) @ '':'' @ zfill 2 (str_nat (second t))"

text \<open>A row handed to the writer holds strings and integers; the writer applies \<^verbatim>\<open>str\<close> to the integers.\<close>

datatype cell = CStr string | CInt int

definition to_csv_row :: "Commit \<Rightarrow> cell list" where
  "to_csv_row c =
     [CStr (repository c), CStr (sha c), CStr (strftime (timestamp c)), CStr (author c),
      CInt (added c), CInt (removed c)]"

fun cell_str :: "cell \<Rightarrow> string" where
  "cell_str (CStr s) = s"
| "cell_str (CInt i) = str_int i"

text \<open>
  \<^verbatim>\<open>csv.writer\<close> with the default dialect: delimiter comma, quote character \<^verbatim>\<open>"\<close>,
  doubled inside a quoted field, minimal quoting (a field is quoted when it holds the
  delimiter, the quote character or a character of the line terminator), line terminator
  carriage return and line feed. A row whose only field is empty is written as a pair of
  quotes.
\<close>

definition csv_special :: "char \<Rightarrow> bool" where
  "csv_special c = (c = CHR '','' \<or> c = CHR 0x22 \<or> c = CHR 0x0D \<or> c = CHR 0x0A)"

definition join_append :: "string \<Rightarrow> string" where
  "join_append field =
     (if list_ex csv_special field
      then [CHR 0x22]
           @ concat (map (\<lambda>c. if c = CHR 0x22 then [CHR 0x22, CHR 0x22] else [c]) field)
           @ [CHR 0x22]
      else field)"

fun join_fields :: "string list \<Rightarrow> string" where
  "join_fields [] = []"
| "join_fields [f] = f"
| "join_fields (f # g # fs) = f @ CHR '','' # join_fields (g # fs)"

definition writerow :: "cell list \<Rightarrow> string" where
  "writerow row =
     (if map cell_str row = [[]] then [CHR 0x22, CHR 0x22]
      else join_fields (map (\<lambda>x. join_append (cell_str x)) row))
     @ [CHR 0x0D, CHR 0x0A]"

text \<open>
  The file is opened with \<^verbatim>\<open>open(filename, 'w')\<close>: text mode with the default
  \<^verbatim>\<open>newline\<close>, which writes every line feed as \<^verbatim>\<open>os.linesep\<close> (a line feed on POSIX,
  carriage return and line feed on Windows). \<open>save_commits linesep cs\<close> is the text
  that ends up in the file.
\<close>

definition write_text :: "string \<Rightarrow> string \<Rightarrow> string" where
  "write_text linesep s = concat (map (\<lambda>c. if c = CHR 0x0A then linesep else [c]) s)"

definition save_commits :: "string \<Rightarrow> Commit list \<Rightarrow> string" where
  "save_commits linesep cs =
     write_text linesep
       (writerow [CStr ''Repository'', CStr ''SHA'', CStr ''Timestamp'', CStr ''Author'',
                  CStr ''Added'', CStr ''Removed'']
        @ concat (map (\<lambda>commit. writerow (to_csv_row commit)) cs))"

subsection \<open>Reading: text mode, \<^verbatim>\<open>csv.reader\<close>\<close>

text \<open>
  The file is opened with \<^verbatim>\<open>open(filename, 'r')\<close>: text mode with universal newlines, which
  turns a carriage return and line feed, and a lone carriage return, into a line feed.
  Iterating over the file yields its lines, each with its line feed.
\<close>

fun universal_newlines :: "string \<Rightarrow> string" where
  "universal_newlines [] = []"
| "universal_newlines [c] = (if c = CHR 0x0D then [CHR 0x0A] else [c])"
| "universal_newlines (c # d # cs) =
     (if c = CHR 0x0D
      then (if d = CHR 0x0A then CHR 0x0A # universal_newlines cs
            else CHR 0x0A # universal_newlines (d # cs))
      else c # universal_newlines (d # cs))"

fun file_lines :: "string \<Rightarrow> string \<Rightarrow> string list" where
  "file_lines cur [] = (if cur = [] then [] else [cur])"
| "file_lines cur (c # cs) =
     (if c = CHR 0x0A then (cur @ [c]) # file_lines [] cs else file_lines (cur @ [c]) cs)"

definition read_lines :: "string \<Rightarrow> string list" where
  "read_lines content = file_lines [] (universal_newlines content)"

text \<open>
  The parser of \<^verbatim>\<open>csv.reader\<close> (\<^verbatim>\<open>parse_process_char\<close> of the C module) for the default
  dialect: no escape character, no skipping of initial spaces, not strict. It is fed the
  characters of a line and then an end-of-line mark, \<open>None\<close> here. A line feed or
  carriage return outside quotes ends the record; any character but a line break after it
  is an error.
\<close>

datatype pstate =
  START_RECORD | START_FIELD | IN_FIELD | IN_QUOTED_FIELD | QUOTE_IN_QUOTED_FIELD | EAT_CRNL

record parser =
  state :: pstate
  row_fields :: "string list"
  cur_field :: string

definition parse_reset :: parser where
  "parse_reset = \<lparr>state = START_RECORD, row_fields = [], cur_field = []\<rparr>"

definition parse_save_field :: "parser \<Rightarrow> parser" where
  "parse_save_field p = p\<lparr>row_fields := row_fields p @ [cur_field p], cur_field := []\<rparr>"

definition parse_add_char :: "parser \<Rightarrow> char \<Rightarrow> parser" where
  "parse_add_char p c = p\<lparr>cur_field := cur_field p @ [c]\<rparr>"

definition is_crnl :: "char \<Rightarrow> bool" where
  "is_crnl c = (c = CHR 0x0A \<or> c = CHR 0x0D)"

definition start_field :: "parser \<Rightarrow> char option \<Rightarrow> error + parser" where
  "start_field p x =
     (case x of
        None \<Rightarrow> Inr ((parse_save_field p)\<lparr>state := START_RECORD\<rparr>)
      | Some c \<Rightarrow>
          if is_crnl c then Inr ((parse_save_field p)\<lparr>state := EAT_CRNL\<rparr>)
          else if c = CHR 0x22 then Inr (p\<lparr>state := IN_QUOTED_FIELD\<rparr>)
          else if c = CHR '','' then Inr (parse_save_field p)
          else Inr ((parse_add_char p c)\<lparr>state := IN_FIELD\<rparr>))"

definition parse_process_char :: "parser \<Rightarrow> char option \<Rightarrow> error + parser" where
  "parse_process_char p x =
     (case state p of
        START_RECORD \<Rightarrow>
          (case x of
             None \<Rightarrow> Inr p
           | Some c \<Rightarrow>
               if is_crnl c then Inr (p\<lparr>state := EAT_CRNL\<rparr>)
               else start_field (p\<lparr>state := START_FIELD\<rparr>) x)
      | START_FIELD \<Rightarrow> start_field p x
      | IN_FIELD \<Rightarrow>
          (case x of
             None \<Rightarrow> Inr ((parse_save_field p)\<lparr>state := START_RECORD\<rparr>)
           | Some c \<Rightarrow>
               if is_crnl c then Inr ((parse_save_field p)\<lparr>state := EAT_CRNL\<rparr>)
               else if c = CHR '','' then Inr ((parse_save_field p)\<lparr>state := START_FIELD\<rparr>)
               else Inr (parse_add_char p c))
      | IN_QUOTED_FIELD \<Rightarrow>
          (case x of
             None \<Rightarrow> Inr p
           | Some c \<Rightarrow>
               if c = CHR 0x22 then Inr (p\<lparr>state := QUOTE_IN_QUOTED_FIELD\<rparr>)
               else Inr (parse_add_char p c))
      | QUOTE_IN_QUOTED_FIELD \<Rightarrow>
          (case x of
             None \<Rightarrow> Inr ((parse_save_field p)\<lparr>state := START_RECORD\<rparr>)
           | Some c \<Rightarrow>
               if c = CHR 0x22 then Inr ((parse_add_char p c)\<lparr>state := IN_QUOTED_FIELD\<rparr>)
               else if c = CHR '','' then Inr ((parse_save_field p)\<lparr>state := START_FIELD\<rparr>)
               else if is_crnl c then Inr ((parse_save_field p)\<lparr>state := EAT_CRNL\<rparr>)
               else Inr ((parse_add_char p c)\<lparr>state := IN_FIELD\<rparr>))
      | EAT_CRNL \<Rightarrow>
          (case x of
             None \<Rightarrow> Inr (p\<lparr>state := START_RECORD\<rparr>)
           | Some c \<Rightarrow> if is_crnl c then Inr p else Inl CsvError))"

fun parse_line :: "parser \<Rightarrow> string \<Rightarrow> error + parser" where
  "parse_line p [] = parse_process_char p None"
| "parse_line p (c # cs) =
     (case parse_process_char p (Some c) of
        Inl e \<Rightarrow> Inl e
      | Inr p' \<Rightarrow> parse_line p' cs)"

text \<open>
  \<^verbatim>\<open>next(reader)\<close>: lines are taken until the parser is back at the start of a record. The
  result is the row and the lines not yet read; at the end of the input a pending field
  is closed, and with nothing pending the iteration stops.
\<close>

fun reader_loop :: "parser \<Rightarrow> string list \<Rightarrow> error + (string list \<times> string list)" where
  "reader_loop p [] =
     (if cur_field p \<noteq> [] \<or> state p = IN_QUOTED_FIELD
      then Inr (row_fields (parse_save_field p), [])
      else Inl StopIteration)"
| "reader_loop p (line # rest) =
     (case parse_line p line of
        Inl e \<Rightarrow> Inl e
      | Inr p' \<Rightarrow>
          if state p' \<noteq> START_RECORD then reader_loop p' rest
          else Inr (row_fields p', rest))"

definition reader_next :: "string list \<Rightarrow> error + (string list \<times> string list)" where
  "reader_next ls = reader_loop parse_reset ls"

subsection \<open>Parsing a row: \<^verbatim>\<open>strptime\<close>, \<^verbatim>\<open>int\<close>, \<^verbatim>\<open>Commit.from_csv_file\<close>\<close>

text \<open>
  \<^verbatim>\<open>datetime.strptime(s, '%Y-%m-%d %H:%M:%S')\<close> matches \<open>s\<close> against the regular
  expression the standard library builds from the format,
  \<^verbatim>\<open>(\d\d\d\d)-(1[0-2]|0[1-9]|[1-9])-(3[0-1]|[1-2]\d|0[1-9]|[1-9]| [1-9])\s+\<close>
  \<^verbatim>\<open>(2[0-3]|[0-1]\d|\d):([0-5]\d|\d):(6[0-1]|[0-5]\d|\d)\<close>,
  and rejects a match that leaves characters over, a date that does not exist and a
  second above 59. A matcher returns every way to match a prefix, in the order in which a
  backtracking engine tries them, so the first element of \<open>strptime_matches\<close> is the
  engine's match.
\<close>

type_synonym matcher = "string \<Rightarrow> (string \<times> string) list"

definition is_digit :: "char \<Rightarrow> bool" where
  "is_digit c = (c \<in> set ''0123456789'')"

definition digit_val :: "char \<Rightarrow> nat" where
  "digit_val c = (of_char c :: nat) - 48"

definition digits_val :: "string \<Rightarrow> nat" where
  "digits_val s = foldl (\<lambda>n c. 10 * n + digit_val c) 0 s"

definition re_class :: "(char \<Rightarrow> bool) \<Rightarrow> matcher" where
  "re_class P s = (case s of [] \<Rightarrow> [] | c # cs \<Rightarrow> if P c then [([c], cs)] else [])"

definition re_char :: "char \<Rightarrow> matcher" where
  "re_char a = re_class (\<lambda>c. c = a)"

definition re_range :: "string \<Rightarrow> matcher" where
  "re_range cls = re_class (\<lambda>c. c \<in> set cls)"

definition re_seq :: "matcher \<Rightarrow> matcher \<Rightarrow> matcher" where
  "re_seq a b s = [(x @ y, r'). (x, r) \<leftarrow> a s, (y, r') \<leftarrow> b r]"

definition re_alt :: "matcher list \<Rightarrow> matcher" where
  "re_alt alts s = concat (map (\<lambda>a. a s) alts)"

fun re_spaces :: matcher where
  "re_spaces [] = []"
| "re_spaces (c # cs) =
     (if isspace c then map (\<lambda>(x, r). (c # x, r)) (re_spaces cs) @ [([c], cs)] else [])"

definition re_d :: matcher where
  "re_d = re_class is_digit"

definition re_Y :: matcher where
  "re_Y = re_seq re_d (re_seq re_d (re_seq re_d re_d))"

definition re_m :: matcher where
  "re_m = re_alt [re_seq (re_char CHR ''1'') (re_range ''012''),
                  re_seq (re_char CHR ''0'') (re_range ''123456789''),
                  re_range ''123456789'']"

definition re_day :: matcher where
  "re_day = re_alt [re_seq (re_char CHR ''3'') (re_range ''01''),
                    re_seq (re_range ''12'') re_d,
                    re_seq (re_char CHR ''0'') (re_range ''123456789''),
                    re_range ''123456789'',
                    re_seq (re_char CHR '' '') (re_range ''123456789'')]"

definition re_H :: matcher where
  "re_H = re_alt [re_seq (re_char CHR ''2'') (re_range ''0123''),
                  re_seq (re_range ''01'') re_d,
                  re_d]"

definition re_M :: matcher where
  "re_M = re_alt [re_seq (re_range ''012345'') re_d, re_d]"

definition re_S :: matcher where
  "re_S = re_alt [re_seq (re_char CHR ''6'') (re_range ''01''),
                  re_seq (re_range ''012345'') re_d,
                  re_d]"

definition strptime_matches ::
    "string \<Rightarrow> ((string \<times> string \<times> string \<times> string \<times> string \<times> string) \<times> string) list" where
  "strptime_matches s =
     [((Y, m, d, H, M, S), r11).
        (Y, r1) \<leftarrow> re_Y s, (_, r2) \<leftarrow> re_char CHR ''-'' r1,
        (m, r3) \<leftarrow> re_m r2, (_, r4) \<leftarrow> re_char CHR ''-'' r3,
        (d, r5) \<leftarrow> re_day r4, (_, r6) \<leftarrow> re_spaces r5,
        (H, r7) \<leftarrow> re_H r6, (_, r8) \<leftarrow> re_char CHR '':'' r7,
        (M, r9) \<leftarrow> re_M r8, (_, r10) \<leftarrow> re_char CHR '':'' r9,
        (S, r11) \<leftarrow> re_S r10]"

definition strptime :: "string \<Rightarrow> error + datetime" where
  "strptime s =
     (case strptime_matches s of
        [] \<Rightarrow> Inl ValueError
      | ((Y, m, d, H, M, S), rest) # _ \<Rightarrow>
          if rest \<noteq> [] then Inl ValueError
          else (let t = \<lparr>year = digits_val Y, month = digits_val m,
                         day = digits_val (dropWhile isspace d), hour = digits_val H,
                         minute = digits_val M, second = digits_val S\<rparr>
                in if valid_datetime t then Inr t else Inl ValueError))"

text \<open>
  \<^verbatim>\<open>int(s)\<close> for a string: surrounding whitespace is dropped, a sign may lead, and the
  digits may be grouped by single underscores.
\<close>

fun digits_ok :: "string \<Rightarrow> bool" where
  "digits_ok [] = False"
| "digits_ok [c] = is_digit c"
| "digits_ok (c # d # cs) =
     (is_digit c \<and> (if d = CHR ''_'' then digits_ok cs else digits_ok (d # cs)))"

definition int_of_str :: "string \<Rightarrow> error + int" where
  "int_of_str s =
     (let t = str_strip s;
          neg = (case t of [] \<Rightarrow> False | c # _ \<Rightarrow> c = CHR ''-'');
          body = (case t of [] \<Rightarrow> t | c # r \<Rightarrow> if c = CHR ''-'' \<or> c = CHR ''+'' then r else t)
      in if digits_ok body
         then Inr ((if neg then - 1 else 1) * int (digits_val (filter (\<lambda>c. c \<noteq> CHR ''_'') body)))
         else Inl ValueError)"

text \<open>
  The body of the loop of \<^verbatim>\<open>from_csv_file\<close>: unpacking a row that has not six fields
  raises \<^verbatim>\<open>ValueError\<close>, as do \<^verbatim>\<open>strptime\<close> and \<^verbatim>\<open>int\<close>.
\<close>

definition commit_of_row :: "string list \<Rightarrow> error + Commit" where
  "commit_of_row row =
     (case row of
        [repository', sha', timestamp', author', added', removed'] \<Rightarrow>
          (case strptime timestamp' of
             Inl e \<Rightarrow> Inl e
           | Inr dt \<Rightarrow>
               (case int_of_str added' of
                  Inl e \<Rightarrow> Inl e
                | Inr a \<Rightarrow>
                    (case int_of_str removed' of
                       Inl e \<Rightarrow> Inl e
                     | Inr r \<Rightarrow>
                         Inr \<lparr>repository = repository', sha = sha', timestamp = dt,
                              author = author', added = a, removed = r\<rparr>)))
      | _ \<Rightarrow> Inl ValueError)"

function from_csv_rows :: "string list \<Rightarrow> Commit list \<Rightarrow> error + Commit list" where
  "from_csv_rows ls acc =
     (case reader_next ls of
        Inl e \<Rightarrow> if e = StopIteration then Inr acc else Inl e
      | Inr (row, rest) \<Rightarrow>
          (case commit_of_row row of
             Inl e \<Rightarrow> Inl e
           | Inr c \<Rightarrow> from_csv_rows rest (acc @ [c])))"
  by pat_completeness auto
termination
proof -
  have le: "length rest \<le> length ls" if "reader_loop p ls = Inr (row, rest)"
    for p ls row rest
    using that
    by (induction ls arbitrary: p) (fastforce split: sum.splits if_splits)+
  have lt: "length rest < length ls" if "reader_next ls = Inr (row, rest)" for ls row rest
  proof (cases ls)
    case Nil
    then show ?thesis using that by (simp add: reader_next_def parse_reset_def)
  next
    case (Cons l ls')
    then show ?thesis
      using that
      by (fastforce simp: reader_next_def split: sum.splits if_splits dest: le)
  qed
  show ?thesis
    by (relation "measure (\<lambda>(ls, acc). length ls)") (auto dest: lt)
qed

declare from_csv_rows.simps [simp del]

text \<open>\<^verbatim>\<open>Commit.from_csv_file\<close> on the content of the file: the first row is skipped.\<close>

definition from_csv_file :: "string \<Rightarrow> error + Commit list" where
  "from_csv_file content =
     (case reader_next (read_lines content) of
        Inl e \<Rightarrow> Inl e
      | Inr (header, rest) \<Rightarrow> from_csv_rows rest [])"

section \<open>Concrete inputs\<close>

text \<open>
  A commit and a group with a chosen magnitude, and the scenario of three commits in the
  weeks 2024-01 (magnitudes 10 and 20) and 2024-03 (magnitude 100), for the concrete
  evaluations below.
\<close>

definition commit_at :: "nat \<Rightarrow> nat \<Rightarrow> nat \<Rightarrow> int \<Rightarrow> int \<Rightarrow> Commit" where
  "commit_at y m d a r =
     \<lparr>repository = ''repo'', sha = ''c0ffee'',
      timestamp = \<lparr>year = y, month = m, day = d, hour = 12, minute = 0, second = 0\<rparr>,
      author = ''alice'', added = a, removed = r\<rparr>"

definition group_of_change :: "string \<Rightarrow> int \<Rightarrow> Group" where
  "group_of_change k v = \<lparr>name = k, commits = [commit_at 2024 1 3 v 0]\<rparr>"

definition example_commits :: "Commit list" where
  "example_commits = [commit_at 2024 1 3 10 0, commit_at 2024 1 15 60 40, commit_at 2024 1 4 5 15]"

definition example_groups :: "(string, Group) dict" where
  "example_groups =
     [(''2024-01'', \<lparr>name = ''2024-01'', commits = [commit_at 2024 1 3 10 0, commit_at 2024 1 4 5 15]\<rparr>),
      (''2024-03'', \<lparr>name = ''2024-03'', commits = [commit_at 2024 1 15 60 40]\<rparr>)]"

definition example_days :: "(date, Day) dict" where
  "example_days =
     [(738886, \<lparr>Day.date = 738886, Day.commits = [commit_at 2024 1 1 10 0], Day.score = 0\<rparr>),
      (738888, \<lparr>Day.date = 738888, Day.commits = [commit_at 2024 1 3 20 0], Day.score = 0\<rparr>)]"

text \<open>
  Two commits for the CSV round trip: an author with a quote and a comma, and an author
  with a carriage return.
\<close>

definition commit_quoted :: Commit where
  "commit_quoted = (commit_at 2024 1 3 10 (- 1))\<lparr>author := ''O'' @ [CHR 0x22] @ ''Neil, Jr.''\<rparr>"

definition commit_cr :: Commit where
  "commit_cr = (commit_at 2024 1 3 10 2)\<lparr>author := ''a'' @ [CHR 0x0D] @ ''b''\<rparr>"

text \<open>
  The invariant of grouping: every group is stored under its own name, and every commit
  of a group has the group's week key.
\<close>

definition keyed :: "(string, Group) dict \<Rightarrow> bool" where
  "keyed groups = (\<forall>(k, g) \<in> set groups. name g = k
       \<and> (\<forall>c \<in> set (Group.commits g). strftime_Y_W (timestamp c) = k))"

section \<open>Supporting lemmas\<close>

lemma change_group_of_change [simp]: "change (group_of_change k v) = v"
  by (simp add: change_def group_added_def group_removed_def group_of_change_def commit_at_def)

subsection \<open>Evaluating the calendar on numerals\<close>

lemmas cal_simps = ymd2ord_def days_before_year_def days_before_month_def is_leap_def
  days_in_month_def yday_def weekday_def strftime_Y_W_def zfill_def digit_char_def commit_at_def

lemma group_by_week_example: "group_by_week example_commits = Inr example_groups"
  by (simp add: group_by_week_def example_commits_def example_groups_def
        group_by_week_update_def dict_contains_def dict_keys_def dict_get_def cal_simps
        str_nat.simps Let_def)

subsection \<open>Dictionaries and grouping\<close>


lemma dict_keys_dict_set_list:
  "dict_keys (dict_set d k v) = (if k \<in> set (dict_keys d) then dict_keys d else dict_keys d @ [k])"
  by (induction d) (force simp: dict_keys_def)+

lemma dict_keys_dict_set:
  "set (dict_keys (dict_set d k v)) = insert k (set (dict_keys d))"
  by (auto simp: dict_keys_dict_set_list)

lemma distinct_dict_set:
  "distinct (dict_keys d) \<Longrightarrow> distinct (dict_keys (dict_set d k v))"
proof (induction d)
  case Nil
  then show ?case by (simp add: dict_keys_def)
next
  case (Cons p d)
  then show ?case by (simp add: dict_keys_dict_set_list)
qed

lemma map_of_dict_set:
  "map_of (dict_set d k v) = (map_of d)(k \<mapsto> v)"
  by (induction d) (auto simp: fun_eq_iff)

lemma dict_get_dict_set: "dict_get (dict_set d k v) k = Inr v"
  by (simp add: dict_get_def map_of_dict_set)

lemma set_dict_set_new:
  "k \<notin> set (dict_keys d) \<Longrightarrow> dict_set d k v = d @ [(k, v)]"
  by (induction d) (auto simp: dict_keys_def)

lemma all_commits_append:
  "all_commits (d @ e) = all_commits d @ all_commits e"
  by (simp add: all_commits_def dict_values_def)

lemma mset_all_commits_dict_set:
  "distinct (dict_keys d) \<Longrightarrow> map_of d k = Some g \<Longrightarrow>
     mset (all_commits (dict_set d k (g\<lparr>commits := Group.commits g @ [c]\<rparr>)))
       = mset (all_commits d) + {#c#}"
proof (induction d)
  case Nil
  then show ?case by simp
next
  case (Cons p d)
  obtain k' v' where p: "p = (k', v')" by (cases p)
  show ?case
  proof (cases "k' = k")
    case True
    then have "v' = g" using Cons.prems p by simp
    then show ?thesis using True p by (simp add: all_commits_def dict_values_def)
  next
    case False
    then have "map_of d k = Some g" using Cons.prems p by simp
    moreover have "distinct (dict_keys d)" using Cons.prems by (simp add: dict_keys_def)
    ultimately have "mset (all_commits (dict_set d k (g\<lparr>commits := Group.commits g @ [c]\<rparr>)))
       = mset (all_commits d) + {#c#}" using Cons.IH by simp
    then show ?thesis using False p by (simp add: all_commits_def dict_values_def)
  qed
qed

lemma set_dict_set_subset:
  "set (dict_set d k v) \<subseteq> insert (k, v) (set d)"
  by (induction d) (auto split: if_splits)

lemma keyed_dict_set:
  "keyed d \<Longrightarrow> name v = k \<Longrightarrow> (\<forall>c \<in> set (Group.commits v). strftime_Y_W (timestamp c) = k)
     \<Longrightarrow> keyed (dict_set d k v)"
  using set_dict_set_subset [of d k v] unfolding keyed_def by fastforce

lemma group_by_week_update_ok:
  assumes "distinct (dict_keys groups)" and "keyed groups"
  shows "\<exists>groups'. group_by_week_update groups c = Inr groups'
           \<and> distinct (dict_keys groups') \<and> keyed groups'
           \<and> mset (all_commits groups') = mset (all_commits groups) + {#c#}"
proof -
  define week where "week = strftime_Y_W (timestamp c)"
  define groups1 where "groups1 = (if \<not> dict_contains week groups
                     then dict_set groups week \<lparr>name = week, commits = []\<rparr>
                     else groups)"
  have d1: "distinct (dict_keys groups1)"
    using assms(1) by (simp add: groups1_def distinct_dict_set)
  have k1: "keyed groups1"
    using assms(2) by (simp add: groups1_def keyed_dict_set)
  have m1: "mset (all_commits groups1) = mset (all_commits groups)"
    by (simp add: groups1_def dict_contains_def set_dict_set_new all_commits_append)
       (simp add: all_commits_def dict_values_def)
  have "week \<in> set (dict_keys groups1)"
    by (simp add: groups1_def dict_contains_def dict_keys_dict_set)
  then obtain g where g: "map_of groups1 week = Some g"
    by (metis dict_keys_def map_of_eq_None_iff not_Some_eq set_map)
  then have gin: "(week, g) \<in> set groups1" by (rule map_of_SomeD)
  have gk: "name g = week" "\<forall>c \<in> set (Group.commits g). strftime_Y_W (timestamp c) = week"
    using k1 gin unfolding keyed_def by auto
  let ?g' = "g\<lparr>commits := Group.commits g @ [c]\<rparr>"
  have res: "group_by_week_update groups c = Inr (dict_set groups1 week ?g')"
    using g by (simp add: group_by_week_update_def Let_def week_def [symmetric]
                  groups1_def [symmetric] dict_get_def)
  have "keyed (dict_set groups1 week ?g')"
    using k1 gk by (intro keyed_dict_set) (auto simp: week_def)
  moreover have "mset (all_commits (dict_set groups1 week ?g')) = mset (all_commits groups) + {#c#}"
    using mset_all_commits_dict_set [OF d1 g] m1 by simp
  moreover have "distinct (dict_keys (dict_set groups1 week ?g'))"
    using d1 by (rule distinct_dict_set)
  ultimately show ?thesis using res by simp
qed

lemma list_reduce_group_by_week:
  "distinct (dict_keys groups) \<Longrightarrow> keyed groups \<Longrightarrow>
     \<exists>groups'. list_reduce cs group_by_week_update groups = Inr groups'
           \<and> distinct (dict_keys groups') \<and> keyed groups'
           \<and> mset (all_commits groups') = mset (all_commits groups) + mset cs"
proof (induction cs arbitrary: groups)
  case Nil
  then show ?case by simp
next
  case (Cons c cs)
  obtain g1 where g1: "group_by_week_update groups c = Inr g1"
      "distinct (dict_keys g1)" "keyed g1"
      "mset (all_commits g1) = mset (all_commits groups) + {#c#}"
    using group_by_week_update_ok [OF Cons.prems] by blast
  obtain g2 where g2: "list_reduce cs group_by_week_update g1 = Inr g2"
      "distinct (dict_keys g2)" "keyed g2"
      "mset (all_commits g2) = mset (all_commits g1) + mset cs"
    using Cons.IH [OF g1(2) g1(3)] by blast
  show ?case using g1 g2 by simp
qed

subsection \<open>Rounding and statistics\<close>

lemma py_round_of_int [simp]: "py_round (of_int k) = k"
  by (simp add: py_round_def)







lemma sum_list_const:
  "\<forall>x \<in> set xs. x = (v::int) \<Longrightarrow> sum_list xs = int (length xs) * v"
  by (induction xs) (auto simp: algebra_simps)

lemma mean_const:
  assumes "xs \<noteq> []" and "\<forall>x \<in> set xs. x = (v::int)"
  shows "mean xs = Inr (of_int v)"
proof -
  have "length xs > 0" using assms(1) by simp
  then show ?thesis using sum_list_const [OF assms(2)] by (simp add: mean_def)
qed

lemma ss_const:
  "\<forall>x \<in> set xs. x = (v::int) \<Longrightarrow>
     sum_list (map (\<lambda>x. (of_int x - (of_int v :: real))\<^sup>2) xs) = 0"
  by (induction xs) auto

lemma stdev_const:
  assumes "length xs > 1" and "\<forall>x \<in> set xs. x = (v::int)"
  shows "stdev xs = Inr 0"
proof -
  have "real_of_int (sum_list xs) / real (length xs) = of_int v"
    using assms sum_list_const [OF assms(2)] by auto
  then show ?thesis using assms(1) ss_const [OF assms(2)] by (simp add: stdev_def Let_def)
qed

subsection \<open>Scores and bars\<close>

lemma get_score_nonneg:
  assumes "get_score g (Some lo) (Some hi) = Inr s"
  shows "0 \<le> s"
proof -
  have "(0::rat) \<le> of_int (change g - lo) / of_int (hi - lo)"
    if "lo \<le> change g" "change g \<le> hi"
    using that by simp
  then show ?thesis
    using assms by (auto simp: get_score_def split: if_splits)
qed

lemma get_score_total: "\<exists>s. get_score g (Some lo) (Some hi) = Inr s"
  by (simp add: get_score_def)

lemma round_half_even_nonneg: "0 \<le> x \<Longrightarrow> 0 \<le> round_half_even x"
  by (auto simp: round_half_even_def Let_def)

lemma pow2_pos: "0 < pow2 k"
  by (simp add: pow2_def)

lemma to_double_nonneg: "0 \<le> x \<Longrightarrow> 0 \<le> to_double x"
proof -
  assume x: "0 \<le> x"
  have "0 \<le> of_int (round_half_even (x / u)) * u" if "0 < u" for u :: rat
    using that x round_half_even_nonneg [of "x / u"] by simp
  then show ?thesis by (simp add: to_double_def Let_def pow2_pos)
qed

lemma to_double_50: "to_double 50 = 50"
  by code_simp

text \<open>
  The product of doubles can fall below the exact product: magnitude 30 in the range from
  1 to 51 has the exact score 29/50, and fifty times the nearest double is just under 29,
  so that the bar has 28 blocks.
\<close>

lemma build_bars_rounded_product:
  "get_score (group_of_change ''2024-02'' 30) (Some 1) (Some 51) = Inr (29 / 50)
   \<and> \<lfloor>(29 / 50 :: rat) * 50\<rfloor> = 29
   \<and> \<lfloor>float_mul (to_double (29 / 50)) 50\<rfloor> = 28
   \<and> build_bars [(''2024-02'', group_of_change ''2024-02'' 30)] (Some 26, Some 1, Some 51) ''#'' 50
       = Inr [''2024-02  30   '' @ replicate 28 CHR ''#'' @ [CHR 0x0A]]"
  by code_simp

lemma build_bar_line:
  assumes "get_score g (Some lo) (Some hi) = Inr s"
  shows "build_bar g (Some lo) (Some hi) block 50
           = Inr (name g @ ''  '' @ str_int (change g)
                  @ replicate (5 - length (str_int (change g))) CHR '' ''
                  @ concat (replicate (nat \<lfloor>float_mul (to_double s) 50\<rfloor>) block) @ [CHR 0x0A])"
proof -
  have "0 \<le> to_double s * 50"
    using to_double_nonneg [OF get_score_nonneg [OF assms]] by simp
  then have "0 \<le> float_mul (to_double s) 50"
    unfolding float_mul_def by (rule to_double_nonneg)
  then have "py_int (float_mul (to_double s) (to_double (of_int 50)))
               = \<lfloor>float_mul (to_double s) 50\<rfloor>"
    by (simp add: py_int_def to_double_50)
  moreover have "str_repeat '' '' (5 - int (length (str_int (change g))))
                   = replicate (5 - length (str_int (change g))) CHR '' ''"
  proof -
    have "nat (5 - int (length (str_int (change g)))) = 5 - length (str_int (change g))"
      by simp
    moreover have "concat (replicate n '' '') = replicate n CHR '' ''" for n
      by (induction n) simp_all
    ultimately show ?thesis by (simp add: str_repeat_def)
  qed
  ultimately show ?thesis using assms by (simp add: build_bar_def str_repeat_def)
qed

lemma build_bars_loop_lines:
  assumes "set names \<subseteq> set (dict_keys groups)"
  shows "\<exists>ls. build_bars_loop groups (Some lo) (Some hi) block 50 names bars = Inr (bars @ ls)
           \<and> list_all2 (\<lambda>k bar. \<exists>g s. map_of groups k = Some g
                 \<and> get_score g (Some lo) (Some hi) = Inr s
                 \<and> bar = name g @ ''  '' @ str_int (change g)
                      @ replicate (5 - length (str_int (change g))) CHR '' ''
                      @ concat (replicate (nat \<lfloor>float_mul (to_double s) 50\<rfloor>) block) @ [CHR 0x0A]) names ls"
  using assms
proof (induction names arbitrary: bars)
  case Nil
  then show ?case by simp
next
  case (Cons k names)
  have "k \<in> set (dict_keys groups)" using Cons.prems by simp
  then obtain g where g: "map_of groups k = Some g"
    by (metis dict_keys_def map_of_eq_None_iff not_Some_eq set_map)
  obtain s where s: "get_score g (Some lo) (Some hi) = Inr s"
    using get_score_total by blast
  let ?bar = "name g @ ''  '' @ str_int (change g)
                @ replicate (5 - length (str_int (change g))) CHR '' ''
                @ concat (replicate (nat \<lfloor>float_mul (to_double s) 50\<rfloor>) block) @ [CHR 0x0A]"
  have bar: "build_bar g (Some lo) (Some hi) block 50 = Inr ?bar"
    using build_bar_line [OF s] .
  have "set names \<subseteq> set (dict_keys groups)" using Cons.prems by simp
  then obtain ls where ls:
      "build_bars_loop groups (Some lo) (Some hi) block 50 names (bars @ [?bar]) = Inr ((bars @ [?bar]) @ ls)"
      "list_all2 (\<lambda>k bar. \<exists>g s. map_of groups k = Some g
                 \<and> get_score g (Some lo) (Some hi) = Inr s
                 \<and> bar = name g @ ''  '' @ str_int (change g)
                      @ replicate (5 - length (str_int (change g))) CHR '' ''
                      @ concat (replicate (nat \<lfloor>float_mul (to_double s) 50\<rfloor>) block) @ [CHR 0x0A]) names ls"
    using Cons.IH [of "bars @ [?bar]"] by blast
  have step: "build_bars_loop groups (Some lo) (Some hi) block 50 (k # names) bars
                = Inr (bars @ ?bar # ls)"
    using g bar ls(1) by (simp add: dict_get_def)
  have "list_all2 (\<lambda>k bar. \<exists>g s. map_of groups k = Some g
                 \<and> get_score g (Some lo) (Some hi) = Inr s
                 \<and> bar = name g @ ''  '' @ str_int (change g)
                      @ replicate (5 - length (str_int (change g))) CHR '' ''
                      @ concat (replicate (nat \<lfloor>float_mul (to_double s) 50\<rfloor>) block) @ [CHR 0x0A]) (k # names) (?bar # ls)"
    using g s ls(2) by auto
  then show ?case using step by blast
qed

subsection \<open>The calendar filler\<close>

lemma map_of_dict_keys: "k \<notin> set (dict_keys d) \<Longrightarrow> map_of d k = None"
  by (simp add: dict_keys_def map_of_eq_None_iff)

lemma fill_loop_done: "max_date < current_date \<Longrightarrow> fill_loop days current_date max_date = Inr days"
  by (simp add: fill_loop.simps)

lemma fill_loop_step:
  assumes "current_date \<le> max_date" and "0 < current_date" and "current_date < date_max"
  shows "fill_loop days current_date max_date
           = fill_loop (if current_date \<in> set (dict_keys days) then days
                        else dict_set days current_date
                               \<lparr>Day.date = current_date, Day.commits = [], Day.score = 0\<rparr>)
               (current_date + 1) max_date"
  using assms
  by (subst fill_loop.simps) (simp add: date_add_days_def dict_contains_def Let_def)

lemma fill_loop_overflow_step:
  "fill_loop days date_max date_max = Inl OverflowError"
  by (subst fill_loop.simps) (simp add: date_add_days_def Let_def)

lemma fill_loop_result:
  assumes "0 < current_date" and "max_date < date_max"
  shows "\<exists>r. fill_loop days current_date max_date = Inr r
           \<and> dict_keys r = dict_keys days
                 @ filter (\<lambda>d. d \<notin> set (dict_keys days)) [current_date..max_date]
           \<and> (\<forall>k. map_of r k =
                 (if k \<in> set (dict_keys days) then map_of days k
                  else if current_date \<le> k \<and> k \<le> max_date
                       then Some \<lparr>Day.date = k, Day.commits = [], Day.score = 0\<rparr>
                  else None))"
  using assms
proof (induction "nat (max_date - current_date + 1)" arbitrary: current_date days)
  case 0
  then have gt: "max_date < current_date" by simp
  then have "[current_date..max_date] = []" by simp
  then show ?case using gt by (auto simp: fill_loop_done map_of_dict_keys)
next
  case (Suc n)
  then have le: "current_date \<le> max_date" by simp
  let ?new = "\<lparr>Day.date = current_date, Day.commits = [], Day.score = 0\<rparr>"
  let ?days1 = "if current_date \<in> set (dict_keys days) then days
                else dict_set days current_date ?new"
  have step: "fill_loop days current_date max_date = fill_loop ?days1 (current_date + 1) max_date"
    using fill_loop_step [of current_date max_date days] le Suc.prems by simp
  have n: "n = nat (max_date - (current_date + 1) + 1)" using Suc.hyps(2) by simp
  have pos: "0 < current_date + 1" using Suc.prems by simp
  obtain r where r: "fill_loop ?days1 (current_date + 1) max_date = Inr r"
      "dict_keys r = dict_keys ?days1
          @ filter (\<lambda>d. d \<notin> set (dict_keys ?days1)) [current_date + 1..max_date]"
      "\<forall>k. map_of r k =
                 (if k \<in> set (dict_keys ?days1) then map_of ?days1 k
                  else if current_date + 1 \<le> k \<and> k \<le> max_date
                       then Some \<lparr>Day.date = k, Day.commits = [], Day.score = 0\<rparr>
                  else None)"
    using Suc.hyps(1) [OF n pos Suc.prems(2), of ?days1] by blast
  have up: "[current_date..max_date] = current_date # [current_date + 1..max_date]"
    using le by (simp add: upto_rec1)
  have notin: "current_date \<notin> set [current_date + 1..max_date]" by simp
  have keys: "dict_keys r = dict_keys days
                 @ filter (\<lambda>d. d \<notin> set (dict_keys days)) [current_date..max_date]"
  proof (cases "current_date \<in> set (dict_keys days)")
    case True
    then show ?thesis using r(2) up by simp
  next
    case False
    have "filter (\<lambda>d. d \<notin> set (dict_keys (dict_set days current_date ?new)))
             [current_date + 1..max_date]
          = filter (\<lambda>d. d \<notin> set (dict_keys days)) [current_date + 1..max_date]"
      by (rule filter_cong) (auto simp: dict_keys_dict_set)
    then show ?thesis using False r(2) up by (simp add: dict_keys_dict_set_list)
  qed
  have maps: "map_of r k =
                 (if k \<in> set (dict_keys days) then map_of days k
                  else if current_date \<le> k \<and> k \<le> max_date
                       then Some \<lparr>Day.date = k, Day.commits = [], Day.score = 0\<rparr>
                  else None)" for k
  proof (cases "current_date \<in> set (dict_keys days)")
    case True
    have rk: "map_of r k =
                 (if k \<in> set (dict_keys days) then map_of days k
                  else if current_date + 1 \<le> k \<and> k \<le> max_date
                       then Some \<lparr>Day.date = k, Day.commits = [], Day.score = 0\<rparr>
                  else None)"
      using r(3) True by simp
    show ?thesis
    proof (cases "k = current_date")
      case True
      then show ?thesis using rk \<open>current_date \<in> set (dict_keys days)\<close> by simp
    next
      case False
      then have "(current_date + 1 \<le> k) = (current_date \<le> k)" by auto
      then show ?thesis using rk by simp
    qed
  next
    case False
    then show ?thesis using r(3) le
      by (auto simp: dict_keys_dict_set map_of_dict_set)
  qed
  show ?case using step r(1) keys maps by simp
qed

lemma fill_loop_overflow:
  assumes "0 < current_date" and "current_date \<le> date_max"
  shows "fill_loop days current_date date_max = Inl OverflowError"
  using assms
proof (induction "nat (date_max - current_date)" arbitrary: current_date days)
  case 0
  then have "current_date = date_max" by simp
  then show ?case by (simp add: fill_loop_overflow_step)
next
  case (Suc n)
  then have lt: "current_date < date_max" by simp
  have n: "n = nat (date_max - (current_date + 1))" using Suc.hyps(2) by simp
  have "fill_loop days current_date date_max
          = fill_loop (if current_date \<in> set (dict_keys days) then days
                        else dict_set days current_date
                               \<lparr>Day.date = current_date, Day.commits = [], Day.score = 0\<rparr>)
               (current_date + 1) date_max"
    using fill_loop_step [of current_date date_max days] lt Suc.prems by simp
  also have "\<dots> = Inl OverflowError"
    using Suc.hyps(1) [OF n] Suc.prems lt by simp
  finally show ?case .
qed


lemma fill_missing_dates_result:
  assumes "days \<noteq> []" and "\<forall>k \<in> set (dict_keys days). valid_date k"
    and "Max (set (dict_keys days)) < date_max"
  shows "\<exists>r. fill_missing_dates days = Inr r
           \<and> dict_keys r = dict_keys days
                 @ filter (\<lambda>d. d \<notin> set (dict_keys days))
                     [Min (set (dict_keys days))..Max (set (dict_keys days))]
           \<and> (\<forall>k. map_of r k =
                 (if k \<in> set (dict_keys days) then map_of days k
                  else if Min (set (dict_keys days)) \<le> k \<and> k \<le> Max (set (dict_keys days))
                       then Some \<lparr>Day.date = k, Day.commits = [], Day.score = 0\<rparr>
                  else None))"
proof -
  have ne: "set (dict_keys days) \<noteq> {}" using assms(1) by (simp add: dict_keys_def)
  then have "Min (set (dict_keys days)) \<in> set (dict_keys days)" by (intro Min_in) simp_all
  then have "0 < Min (set (dict_keys days))" using assms(2) by (auto simp: valid_date_def)
  then show ?thesis
    using fill_loop_result [of "Min (set (dict_keys days))" "Max (set (dict_keys days))" days]
      assms(1,3)
    by (simp add: fill_missing_dates_def Let_def)
qed

lemma fill_missing_dates_overflow:
  assumes "days \<noteq> []" and "\<forall>k \<in> set (dict_keys days). valid_date k"
    and "Max (set (dict_keys days)) = date_max"
  shows "fill_missing_dates days = Inl OverflowError"
proof -
  have ne: "set (dict_keys days) \<noteq> {}" using assms(1) by (simp add: dict_keys_def)
  then have "Min (set (dict_keys days)) \<in> set (dict_keys days)" by (intro Min_in) simp_all
  then have "0 < Min (set (dict_keys days))" "Min (set (dict_keys days)) \<le> date_max"
    using assms(2) by (auto simp: valid_date_def)
  then show ?thesis
    using fill_loop_overflow [of "Min (set (dict_keys days))" days] assms(1,3)
    by (simp add: fill_missing_dates_def Let_def)
qed

text \<open>
  Contiguity of the filler on every mapping whose last key is not the last date of the
  calendar: the keys of the result are exactly the dates from the least to the greatest
  input key, each once; the input buckets are kept as they are, and every other date of
  the range has an empty bucket.
\<close>

lemma fill_missing_dates_contiguous:
  assumes "days \<noteq> []" and "distinct (dict_keys days)"
    and "\<forall>k \<in> set (dict_keys days). valid_date k"
    and "Max (set (dict_keys days)) < date_max"
  shows "\<exists>r. fill_missing_dates days = Inr r
           \<and> set (dict_keys r) = {Min (set (dict_keys days))..Max (set (dict_keys days))}
           \<and> distinct (dict_keys r)
           \<and> (\<forall>k \<in> set (dict_keys days). map_of r k = map_of days k)
           \<and> (\<forall>k \<in> set (dict_keys r) - set (dict_keys days).
                 map_of r k = Some \<lparr>Day.date = k, Day.commits = [], Day.score = 0\<rparr>)"
proof -
  let ?K = "set (dict_keys days)"
  obtain r where r: "fill_missing_dates days = Inr r"
      "dict_keys r = dict_keys days @ filter (\<lambda>d. d \<notin> ?K) [Min ?K..Max ?K]"
      "\<forall>k. map_of r k =
                 (if k \<in> ?K then map_of days k
                  else if Min ?K \<le> k \<and> k \<le> Max ?K
                       then Some \<lparr>Day.date = k, Day.commits = [], Day.score = 0\<rparr>
                  else None)"
    using fill_missing_dates_result [OF assms(1,3,4)] by blast
  have fin: "finite ?K" by simp
  have sub: "?K \<subseteq> {Min ?K..Max ?K}" using fin by auto
  have keys: "set (dict_keys r) = {Min ?K..Max ?K}" using r(2) sub by auto
  have dist: "distinct (dict_keys r)" using r(2) assms(2) by auto
  show ?thesis using r(1) keys dist r(3) by auto
qed

section \<open>Properties of the score normalizer\<close>

text \<open>
  C2 (as amended). For every group and every pair of integer bounds with
  \<open>lower \<le> upper\<close>, \<^verbatim>\<open>get_score\<close> returns a score in [0,1]; a magnitude \<open>v \<le> lower\<close>
  gives 0; a magnitude \<open>v \<ge> upper\<close> gives 1, except in the degenerate range
  \<open>v = lower = upper\<close>, where the score is 0.
\<close>

theorem get_score_bounded:
  assumes "lower \<le> upper"
  shows "\<exists>s. get_score g (Some lower) (Some upper) = Inr s \<and> 0 \<le> s \<and> s \<le> 1
           \<and> (change g \<le> lower \<longrightarrow> s = 0)
           \<and> (change g \<ge> upper \<and> \<not> (change g = lower \<and> lower = upper) \<longrightarrow> s = 1)"
proof -
  consider (below) "change g < lower" | (above) "change g > upper"
    | (degenerate) "lower \<le> change g" "change g \<le> upper" "upper = lower"
    | (inside) "lower \<le> change g" "change g \<le> upper" "lower < upper"
    using assms by linarith
  then show ?thesis
  proof cases
    case below
    then show ?thesis using assms by (simp add: get_score_def)
  next
    case above
    then show ?thesis using assms by (simp add: get_score_def)
  next
    case degenerate
    then show ?thesis by (simp add: get_score_def)
  next
    case inside
    have pos: "(0::rat) < of_int (upper - lower)" using inside by simp
    have num: "(0::rat) \<le> of_int (change g - lower)" using inside by simp
    have le: "(of_int (change g - lower) :: rat) \<le> of_int (upper - lower)"
      using inside by simp
    have q0: "(0::rat) \<le> of_int (change g - lower) / of_int (upper - lower)"
      using pos num by simp
    have q1: "(of_int (change g - lower) :: rat) / of_int (upper - lower) \<le> 1"
      using pos le by simp
    have eq: "get_score g (Some lower) (Some upper)
                = Inr (of_int (change g - lower) / of_int (upper - lower))"
      using inside by (simp add: get_score_def)
    have lo: "change g \<le> lower \<longrightarrow>
                (of_int (change g - lower) :: rat) / of_int (upper - lower) = 0"
      using inside by auto
    have hi: "change g \<ge> upper \<longrightarrow>
                (of_int (change g - lower) :: rat) / of_int (upper - lower) = 1"
    proof
      assume "change g \<ge> upper"
      then have "change g = upper" using inside by simp
      then show "(of_int (change g - lower) :: rat) / of_int (upper - lower) = 1"
        using pos by simp
    qed
    show ?thesis using eq q0 q1 lo hi by simp
  qed
qed

theorem get_score_bounded_witness:
  "(0::int) \<le> 87 \<and> (\<exists>s. get_score (group_of_change ''2024-01'' 30) (Some 0) (Some 87) = Inr s
      \<and> 0 \<le> s \<and> s \<le> 1
      \<and> (change (group_of_change ''2024-01'' 30) \<le> 0 \<longrightarrow> s = 0)
      \<and> (change (group_of_change ''2024-01'' 30) \<ge> 87
           \<and> \<not> (change (group_of_change ''2024-01'' 30) = 0 \<and> (0::int) = 87) \<longrightarrow> s = 1))"
  using get_score_bounded [of 0 87 "group_of_change ''2024-01'' 30"] by simp

text \<open>
  The claim as stated asks for score 1 whenever \<open>v \<ge> upper\<close>; at \<open>v = lower = upper = 3\<close>
  the code returns 0.
\<close>

theorem get_score_bounded_counterexample:
  "(3::int) \<le> 3 \<and> change (group_of_change ''2024-01'' 3) \<ge> 3
     \<and> get_score (group_of_change ''2024-01'' 3) (Some 3) (Some 3) = Inr 0
     \<and> get_score (group_of_change ''2024-01'' 3) (Some 3) (Some 3) \<noteq> Inr 1"
  by (simp add: get_score_def)

text \<open>
  C9 (as amended). When \<open>lower = upper\<close>, \<^verbatim>\<open>get_score\<close> returns 0 for every magnitude
  \<open>v \<le> lower\<close> and 1 for every magnitude \<open>v > upper\<close>; it never divides by zero.
\<close>

theorem get_score_degenerate:
  "get_score g (Some b) (Some b) = Inr (if change g \<le> b then 0 else 1)"
  by (simp add: get_score_def)

text \<open>The claim as stated asks for 0 at every magnitude; at \<open>v = 5\<close>, \<open>lower = upper = 3\<close> the code returns 1.\<close>

theorem get_score_degenerate_counterexample:
  "get_score (group_of_change ''2024-01'' 5) (Some 3) (Some 3) = Inr 1
     \<and> get_score (group_of_change ''2024-01'' 5) (Some 3) (Some 3) \<noteq> Inr 0"
  by (simp add: get_score_def)

section \<open>Properties of the bucket aggregator\<close>

text \<open>
  C6. For every list of commits, \<^verbatim>\<open>group_by_week\<close> returns a mapping (it does not
  raise) whose buckets, taken together as a multiset, are exactly the input commits: no
  commit is lost or duplicated. The week keys are distinct and every commit sits in the
  bucket of its own week key, so each commit is in exactly one bucket.
\<close>

theorem group_by_week_partition:
  "\<exists>groups. group_by_week cs = Inr groups
      \<and> mset (all_commits groups) = mset cs
      \<and> distinct (dict_keys groups)
      \<and> (\<forall>(k, g) \<in> set groups. \<forall>c \<in> set (Group.commits g). strftime_Y_W (timestamp c) = k)"
proof -
  have "distinct (dict_keys ([] :: (string, Group) dict))" by (simp add: dict_keys_def)
  moreover have "keyed []" by (simp add: keyed_def)
  ultimately obtain groups where "list_reduce cs group_by_week_update [] = Inr groups"
      "distinct (dict_keys groups)" "keyed groups"
      "mset (all_commits groups) = mset (all_commits []) + mset cs"
    using list_reduce_group_by_week by blast
  then show ?thesis
    unfolding group_by_week_def keyed_def by (auto simp: all_commits_def dict_values_def)
qed

theorem group_by_week_partition_witness:
  "group_by_week example_commits = Inr example_groups
     \<and> mset (all_commits example_groups) = mset example_commits
     \<and> distinct (dict_keys example_groups)
     \<and> list_all (\<lambda>(k, g). list_all (\<lambda>c. strftime_Y_W (timestamp c) = k) (Group.commits g))
           example_groups"
  using group_by_week_partition [of example_commits] group_by_week_example
  by (simp add: list_all_iff)

text \<open>
  C10. With no author filter (the default of the visualizer's \<^verbatim>\<open>--author\<close> option is the
  empty list) \<^verbatim>\<open>filter_by_authors\<close> returns the empty list, whatever the commits: an
  empty filter removes every commit.
\<close>

theorem filter_by_authors_no_authors: "filter_by_authors cs [] = []"
  by (simp add: filter_by_authors_def list_map_def list_filter_def)

section \<open>Properties of the range estimator\<close>




text \<open>
  C8 (as amended). \<^verbatim>\<open>get_stddev_range\<close> returns \<^verbatim>\<open>(None, None, None)\<close> for zero
  groups and never raises on degenerate statistics: with a single group the standard
  deviation is 0 (upper = mean), and with all-equal magnitudes \<open>v\<close> it returns mean
  \<open>v\<close>, upper \<open>v\<close> and lower \<open>max v 0\<close>, so lower = upper = mean whenever the
  common magnitude is not negative.
\<close>

theorem get_stddev_range_degenerate:
  "get_stddev_range [] = Inr (None, None, None)
   \<and> get_stddev_range [(k, g)] = Inr (Some (change g), Some (max (change g) 0), Some (change g))
   \<and> (groups \<noteq> [] \<and> (\<forall>g \<in> set (dict_values groups). change g = v) \<longrightarrow>
        get_stddev_range groups = Inr (Some v, Some (max v 0), Some v))"
proof (intro conjI impI)
  show "get_stddev_range [] = Inr (None, None, None)"
    by (simp add: get_stddev_range_def list_map_def dict_values_def)
  show "get_stddev_range [(k, g)] = Inr (Some (change g), Some (max (change g) 0), Some (change g))"
    by (simp add: get_stddev_range_def list_map_def dict_values_def mean_def Let_def)
  assume a: "groups \<noteq> [] \<and> (\<forall>g \<in> set (dict_values groups). change g = v)"
  define changes where "changes = list_map (dict_values groups) change"
  have ne: "changes \<noteq> []" using a by (simp add: changes_def list_map_def dict_values_def)
  have all: "\<forall>x \<in> set changes. x = v" using a by (auto simp: changes_def list_map_def)
  have m: "mean changes = Inr (of_int v)" using mean_const [OF ne all] .
  have s: "length changes > 1 \<Longrightarrow> stdev changes = Inr 0" using stdev_const all by blast
  have r0: "py_round 0 = 0" using py_round_of_int [of 0] by simp
  show "get_stddev_range groups = Inr (Some v, Some (max v 0), Some v)"
    using ne m s r0 by (simp add: get_stddev_range_def changes_def [symmetric] Let_def)
qed

theorem get_stddev_range_degenerate_witness:
  "get_stddev_range [] = Inr (None, None, None)
   \<and> get_stddev_range [(''2024-01'', group_of_change ''2024-01'' 7)] = Inr (Some 7, Some 7, Some 7)
   \<and> get_stddev_range [(''2024-01'', group_of_change ''2024-01'' 7),
                         (''2024-02'', group_of_change ''2024-02'' 7)]
         = Inr (Some 7, Some 7, Some 7)"
  using get_stddev_range_degenerate [of "''2024-01''" "group_of_change ''2024-01'' 7"
      "[(''2024-01'', group_of_change ''2024-01'' 7), (''2024-02'', group_of_change ''2024-02'' 7)]" 7]
  by (simp add: dict_values_def)

text \<open>
  The claim as stated has lower = upper = mean for all-equal magnitudes. A commit whose
  line counts are still the sentinel -1 gives its group the magnitude -2; the single
  group then has mean -2 and upper -2, and lower is clamped to 0.
\<close>

theorem get_stddev_range_degenerate_counterexample:
  "get_stddev_range [(''2024-01'', \<lparr>name = ''2024-01'', commits = [commit_at 2024 1 3 (- 1) (- 1)]\<rparr>)]
     = Inr (Some (- 2), Some 0, Some (- 2))"
proof -
  have "py_round (- 2) = - 2" using py_round_of_int [of "- 2"] by simp
  then show ?thesis
    by (simp add: get_stddev_range_def list_map_def dict_values_def mean_def Let_def change_def
          group_added_def group_removed_def commit_at_def)
qed

section \<open>Properties of the bar renderer\<close>

text \<open>
  C5 (as amended). For every mapping of week keys to Groups in which each group is
  stored under its own name (as \<^verbatim>\<open>group_by_week\<close> builds it) and every integer range,
  \<^verbatim>\<open>build_bars\<close> with width 50 returns one line per group, in ascending order of the
  week keys; each line is the key, two spaces, the decimal change magnitude followed by
  spaces up to a field width of 5 characters (the number is left-justified), then the
  block repeated \<open>floor (score * 50)\<close> times, then a newline. The score is the double
  that \<^verbatim>\<open>get_score\<close> returns, \<open>to_double s\<close> for the exact quotient \<open>s\<close>, and
  the product is the product of doubles, \<open>float_mul\<close>.
\<close>

theorem build_bars_lines:
  assumes "distinct (dict_keys groups)"
    and "\<forall>(k, g) \<in> set groups. name g = k"
  shows "\<exists>bars. build_bars groups (m, Some lower, Some upper) block 50 = Inr bars
           \<and> list_all2 (\<lambda>k bar. \<exists>g s. map_of groups k = Some g
                 \<and> get_score g (Some lower) (Some upper) = Inr s
                 \<and> bar = k @ ''  '' @ str_int (change g)
                      @ replicate (5 - length (str_int (change g))) CHR '' ''
                      @ concat (replicate (nat \<lfloor>float_mul (to_double s) 50\<rfloor>) block) @ [CHR 0x0A])
               (sort (dict_keys groups)) bars"
proof -
  have "set (sort (dict_keys groups)) \<subseteq> set (dict_keys groups)" by simp
  then obtain ls where ls:
      "build_bars_loop groups (Some lower) (Some upper) block 50 (sort (dict_keys groups)) [] = Inr ([] @ ls)"
      "list_all2 (\<lambda>k bar. \<exists>g s. map_of groups k = Some g
                 \<and> get_score g (Some lower) (Some upper) = Inr s
                 \<and> bar = name g @ ''  '' @ str_int (change g)
                      @ replicate (5 - length (str_int (change g))) CHR '' ''
                      @ concat (replicate (nat \<lfloor>float_mul (to_double s) 50\<rfloor>) block) @ [CHR 0x0A])
               (sort (dict_keys groups)) ls"
    using build_bars_loop_lines [of "sort (dict_keys groups)" groups lower upper block "[]"] by blast
  have nm: "name g = k" if "map_of groups k = Some g" for k g
    using assms(2) map_of_SomeD [OF that] by auto
  have "list_all2 (\<lambda>k bar. \<exists>g s. map_of groups k = Some g
                 \<and> get_score g (Some lower) (Some upper) = Inr s
                 \<and> bar = k @ ''  '' @ str_int (change g)
                      @ replicate (5 - length (str_int (change g))) CHR '' ''
                      @ concat (replicate (nat \<lfloor>float_mul (to_double s) 50\<rfloor>) block) @ [CHR 0x0A])
               (sort (dict_keys groups)) ls"
    using ls(2) by (rule list_all2_mono) (use nm in auto)
  then show ?thesis using ls(1) by (simp add: build_bars_def)
qed

theorem build_bars_lines_witness:
  "distinct (dict_keys example_groups) \<and> list_all (\<lambda>(k, g). name g = k) example_groups
   \<and> (\<exists>bars. build_bars example_groups (Some 43, Some 0, Some 87) ''#'' 50 = Inr bars
           \<and> list_all2 (\<lambda>k bar. \<exists>g s. map_of example_groups k = Some g
                 \<and> get_score g (Some 0) (Some 87) = Inr s
                 \<and> bar = k @ ''  '' @ str_int (change g)
                      @ replicate (5 - length (str_int (change g))) CHR '' ''
                      @ concat (replicate (nat \<lfloor>float_mul (to_double s) 50\<rfloor>) ''#'') @ [CHR 0x0A])
               (sort (dict_keys example_groups)) bars)"
proof -
  have d: "distinct (dict_keys example_groups)"
    by (simp add: example_groups_def dict_keys_def)
  have n: "\<forall>(k, g) \<in> set example_groups. name g = k"
    by (simp add: example_groups_def)
  show ?thesis
    using d n build_bars_lines [OF d n, of "Some 43" 0 87 "''#''"]
    by (simp add: list_all_iff)
qed

text \<open>
  The claim as stated pads the number on its left. For the two groups of the scenario and
  the range (43, 0, 87) the code puts the spaces after the number.
\<close>

theorem build_bars_lines_counterexample:
  "build_bars example_groups (Some 43, Some 0, Some 87) ''#'' 50
     = Inr [''2024-01  30   '' @ replicate 17 CHR ''#'' @ [CHR 0x0A],
            ''2024-03  100  '' @ replicate 50 CHR ''#'' @ [CHR 0x0A]]
   \<and> build_bars example_groups (Some 43, Some 0, Some 87) ''#'' 50
     \<noteq> Inr [''2024-01     30'' @ replicate 17 CHR ''#'' @ [CHR 0x0A],
            ''2024-03    100'' @ replicate 50 CHR ''#'' @ [CHR 0x0A]]"
  by code_simp

section \<open>Properties of the calendar filler\<close>

text \<open>
  C3. The filler is meant to return, for every non-empty mapping, the mapping over all
  dates from the least to the greatest key; \<open>fill_missing_dates_contiguous\<close> above
  proves that it does whenever the greatest key is before 9999-12-31, and the empty mapping
  is returned as it is. When the greatest key is 9999-12-31, the last date of
  \<^verbatim>\<open>datetime.date\<close>, the loop still advances \<^verbatim>\<open>current_date\<close> past it after the last
  round, and the addition raises \<^verbatim>\<open>OverflowError\<close>: no mapping is returned. A commit
  stamped 9999-12-31 takes \<^verbatim>\<open>Day.from_commits\<close> there.
\<close>

theorem fill_missing_dates_last_date:
  "fill_missing_dates [] = Inr []
   \<and> fill_missing_dates
         [(date_max, \<lparr>Day.date = date_max, Day.commits = [commit_at 9999 12 31 1 1], Day.score = 0\<rparr>)]
       = Inl OverflowError
   \<and> valid_datetime (timestamp (commit_at 9999 12 31 1 1))
   \<and> from_commits [commit_at 9999 12 31 1 1] = Inl OverflowError"
proof -
  let ?days = "[(date_max, \<lparr>Day.date = date_max, Day.commits = [commit_at 9999 12 31 1 1],
                              Day.score = 0\<rparr>)]"
  have empty: "fill_missing_dates [] = Inr []"
    by (simp add: fill_missing_dates_def)
  have last: "fill_missing_dates ?days = Inl OverflowError"
    by (simp add: fill_missing_dates_def dict_keys_def fill_loop_overflow_step)
  have valid: "valid_datetime (timestamp (commit_at 9999 12 31 1 1))"
    by (simp add: valid_datetime_def cal_simps)
  have ord: "ymd2ord 9999 12 31 = date_max"
    by (simp add: cal_simps date_max_def)
  have "from_commits_loop [commit_at 9999 12 31 1 1] [] = Inr ?days"
    using ord by (simp add: datetime_date_def dict_contains_def dict_keys_def dict_get_def)
       (simp add: commit_at_def)
  then have "from_commits [commit_at 9999 12 31 1 1] = Inl OverflowError"
    using last by (simp add: from_commits_def)
  then show ?thesis using empty last valid by simp
qed

text \<open>
  C4 (as amended). For every mapping from date to Day bucket whose greatest key is before
  9999-12-31, the mapping returned by the filler iterates first over the input keys, in
  the order the input had them, and then over the inserted missing dates in ascending
  order; the empty mapping is returned as it is.
\<close>

theorem fill_missing_dates_order:
  assumes "\<forall>k \<in> set (dict_keys days). valid_date k"
  shows "(days = [] \<longrightarrow> fill_missing_dates days = Inr [])
     \<and> (days \<noteq> [] \<and> Max (set (dict_keys days)) < date_max \<longrightarrow>
          (\<exists>r. fill_missing_dates days = Inr r
             \<and> dict_keys r = dict_keys days
                   @ filter (\<lambda>d. d \<notin> set (dict_keys days))
                       [Min (set (dict_keys days))..Max (set (dict_keys days))]))"
proof (intro conjI impI)
  show "fill_missing_dates days = Inr []" if "days = []"
    using that by (simp add: fill_missing_dates_def)
  show "\<exists>r. fill_missing_dates days = Inr r
             \<and> dict_keys r = dict_keys days
                   @ filter (\<lambda>d. d \<notin> set (dict_keys days))
                       [Min (set (dict_keys days))..Max (set (dict_keys days))]"
    if "days \<noteq> [] \<and> Max (set (dict_keys days)) < date_max"
    using fill_missing_dates_result [of days] that assms by blast
qed

theorem fill_missing_dates_order_witness:
  "list_all valid_date (dict_keys example_days)
   \<and> (\<exists>r. fill_missing_dates example_days = Inr r
          \<and> dict_keys r = [738886, 738888, 738887])"
proof -
  have v: "\<forall>k \<in> set (dict_keys example_days). valid_date k"
    by (simp add: example_days_def dict_keys_def valid_date_def date_max_def)
  have ne: "example_days \<noteq> []" by (simp add: example_days_def)
  have mx: "Max (set (dict_keys example_days)) = 738888" "Min (set (dict_keys example_days)) = 738886"
    by (simp_all add: example_days_def dict_keys_def)
  have lt: "Max (set (dict_keys example_days)) < date_max" by (simp add: mx date_max_def)
  have up: "[738886..738888::int] = [738886, 738887, 738888]"
    by (simp add: upto_rec1)
  have "\<exists>r. fill_missing_dates example_days = Inr r
          \<and> dict_keys r = dict_keys example_days
                   @ filter (\<lambda>d. d \<notin> set (dict_keys example_days)) [738886..738888]"
    using fill_missing_dates_order [OF v] ne lt mx by simp
  then have "\<exists>r. fill_missing_dates example_days = Inr r
          \<and> dict_keys r = [738886, 738888, 738887]"
    by (simp add: up) (simp add: example_days_def dict_keys_def)
  then show ?thesis using v by (simp add: list_all_iff)
qed

text \<open>
  The claim as stated has the result in ascending date order. For the buckets of
  2024-01-01 and 2024-01-03 the missing 2024-01-02 is inserted after both.
\<close>

theorem fill_missing_dates_order_counterexample:
  "(\<exists>r. fill_missing_dates example_days = Inr r
        \<and> dict_keys r = [738886, 738888, 738887] \<and> \<not> sorted (dict_keys r))
   \<and> ymd2ord 2024 1 1 = 738886 \<and> ymd2ord 2024 1 2 = 738887 \<and> ymd2ord 2024 1 3 = 738888"
proof -
  have mm: "Max (set (dict_keys example_days)) = 738888" "Min (set (dict_keys example_days)) = 738886"
    by (simp_all add: example_days_def dict_keys_def)
  have "fill_loop example_days 738886 738888
          = Inr (example_days @ [(738887, \<lparr>Day.date = 738887, Day.commits = [], Day.score = 0\<rparr>)])"
    by (simp add: fill_loop_step fill_loop_done date_max_def)
       (simp add: example_days_def dict_keys_def)
  then have "fill_missing_dates example_days
          = Inr (example_days @ [(738887, \<lparr>Day.date = 738887, Day.commits = [], Day.score = 0\<rparr>)])"
    using mm by (simp add: fill_missing_dates_def) (simp add: example_days_def)
  moreover have "dict_keys (example_days @ [(738887, \<lparr>Day.date = 738887, Day.commits = [], Day.score = 0\<rparr>)])
                   = [738886, 738888, 738887]"
    by (simp add: example_days_def dict_keys_def)
  moreover have "ymd2ord 2024 1 1 = 738886 \<and> ymd2ord 2024 1 2 = 738887 \<and> ymd2ord 2024 1 3 = 738888"
    by (simp add: cal_simps)
  ultimately show ?thesis by simp
qed

section \<open>The CSV round trip\<close>

text \<open>
  C7. Writing commit records with \<^verbatim>\<open>save_commits\<close> and reading the file back with
  \<^verbatim>\<open>from_csv_file\<close> is meant to return the records. Both functions open the file in text
  mode without \<^verbatim>\<open>newline=''\<close>, which the \<^verbatim>\<open>csv\<close> module asks for. On POSIX a record
  with a quote and a comma in its author comes back as it was, but a carriage return in a
  field comes back as a line feed; with the Windows line separator every row gets a blank
  line after it and \<^verbatim>\<open>from_csv_file\<close> raises \<^verbatim>\<open>ValueError\<close> on the first one.
\<close>

theorem csv_round_trip_carriage_return:
  "from_csv_file (save_commits [CHR 0x0A] [commit_quoted, commit_cr])
     = Inr [commit_quoted, commit_cr\<lparr>author := ''a'' @ [CHR 0x0A] @ ''b''\<rparr>]
   \<and> from_csv_file (save_commits [CHR 0x0A] [commit_quoted, commit_cr])
     \<noteq> Inr [commit_quoted, commit_cr]
   \<and> from_csv_file (save_commits [CHR 0x0D, CHR 0x0A] [commit_quoted]) = Inl ValueError"
  by code_simp

end
